theory Spec2Isabelle
  imports Main "HOL-Library.AList" "HOL-Library.Word"
begin

section \<open>Strings and regular expressions\<close>

text \<open>
  A JavaScript string is modelled as a \<^typ>\<open>string\<close>: a sequence of code units, restricted
  to the code units below 256. The three patterns of \<^verbatim>\<open>checkContentModeration\<close> use
  literals, \<^verbatim>\<open>\d\<close>, \<^verbatim>\<open>\s\<close>, a character class, \<^verbatim>\<open>\b\<close>, alternation, \<^verbatim>\<open>?\<close> and
  \<^verbatim>\<open>{n}\<close>; the datatype below has these constructs and the empty pattern.
\<close>

definition code_unit :: "char \<Rightarrow> nat" where
  "code_unit c = of_char c"

definition is_digit :: "char \<Rightarrow> bool" where
  \<comment> \<open>\<^verbatim>\<open>\d\<close>: 0-9\<close>
  "is_digit c = (48 \<le> code_unit c \<and> code_unit c \<le> 57)"

definition is_word_char :: "char \<Rightarrow> bool" where
  \<comment> \<open>\<^verbatim>\<open>\w\<close>: A-Z, a-z, 0-9 and the underscore\<close>
  "is_word_char c =
     ((65 \<le> code_unit c \<and> code_unit c \<le> 90) \<or> (97 \<le> code_unit c \<and> code_unit c \<le> 122)
      \<or> is_digit c \<or> code_unit c = 95)"

definition is_white_space :: "char \<Rightarrow> bool" where
  \<comment> \<open>\<^verbatim>\<open>\s\<close> below 256: tab, line feed, vertical tab, form feed, carriage return, space,
      no-break space\<close>
  "is_white_space c = ((9 \<le> code_unit c \<and> code_unit c \<le> 13) \<or> code_unit c = 32 \<or> code_unit c = 160)"

definition canonicalize :: "char \<Rightarrow> char" where
  \<comment> \<open>the case folding of the \<^verbatim>\<open>i\<close> flag (upper case of one code unit), as far as it
      identifies code units below 256\<close>
  "canonicalize c =
     (if (97 \<le> code_unit c \<and> code_unit c \<le> 122)
         \<or> (224 \<le> code_unit c \<and> code_unit c \<le> 254 \<and> code_unit c \<noteq> 247)
      then char_of (code_unit c - 32) else c)"

datatype atom = Chr char | Digit | WhiteSpace | OneOf "atom list"

datatype regex =
    Empty
  | Atom atom
  | WordBoundary
  | Seq regex regex
  | Alt regex regex
  | Opt regex
  | Repeat nat regex

fun atom_matches :: "bool \<Rightarrow> atom \<Rightarrow> char \<Rightarrow> bool" where
  "atom_matches ic (Chr a) c = (if ic then canonicalize a = canonicalize c else a = c)"
| "atom_matches ic Digit c = is_digit c"
| "atom_matches ic WhiteSpace c = is_white_space c"
| "atom_matches ic (OneOf as) c = list_ex (\<lambda>a. atom_matches ic a c) as"

text \<open>
  A position in the input is the code unit before it (if any) and the rest of the input.
  \<open>ends ic r k\<close> lists the positions where a match of \<open>r\<close> that starts at \<open>k\<close> can end;
  \<^verbatim>\<open>test\<close> only asks whether there is one, so the order of the alternatives is immaterial.
\<close>

type_synonym position = "char option \<times> string"

definition at_word_boundary :: "position \<Rightarrow> bool" where
  "at_word_boundary k =
     ((case fst k of None \<Rightarrow> False | Some c \<Rightarrow> is_word_char c)
      \<noteq> (case snd k of [] \<Rightarrow> False | c # cs \<Rightarrow> is_word_char c))"

fun ends :: "bool \<Rightarrow> regex \<Rightarrow> position \<Rightarrow> position list" where
  "ends ic Empty k = [k]"
| "ends ic (Atom a) k =
     (case snd k of [] \<Rightarrow> [] | c # cs \<Rightarrow> if atom_matches ic a c then [(Some c, cs)] else [])"
| "ends ic WordBoundary k = (if at_word_boundary k then [k] else [])"
| "ends ic (Seq r1 r2) k = concat (map (ends ic r2) (ends ic r1 k))"
| "ends ic (Alt r1 r2) k = ends ic r1 k @ ends ic r2 k"
| "ends ic (Opt r) k = ends ic r k @ [k]"
| "ends ic (Repeat n r) k = ((\<lambda>ks. concat (map (ends ic r) ks)) ^^ n) [k]"

fun search :: "bool \<Rightarrow> regex \<Rightarrow> char option \<Rightarrow> string \<Rightarrow> bool" where
  "search ic r p [] = (ends ic r (p, []) \<noteq> [])"
| "search ic r p (c # cs) = (ends ic r (p, c # cs) \<noteq> [] \<or> search ic r (Some c) cs)"

record pattern =
  ignoreCase :: bool
  body :: regex

definition test :: "pattern \<Rightarrow> string \<Rightarrow> bool" where
  \<comment> \<open>\<^verbatim>\<open>RegExp.prototype.test\<close> of a pattern without the \<^verbatim>\<open>g\<close> and \<^verbatim>\<open>y\<close> flags\<close>
  "test p s = search (ignoreCase p) (body p) None s"

fun literal :: "string \<Rightarrow> regex" where
  "literal [] = Empty"
| "literal [c] = Atom (Chr c)"
| "literal (c # cs) = Seq (Atom (Chr c)) (literal cs)"

fun seqs :: "regex list \<Rightarrow> regex" where
  "seqs [] = Empty"
| "seqs [r] = r"
| "seqs (r # rs) = Seq r (seqs rs)"

fun alts :: "regex \<Rightarrow> regex list \<Rightarrow> regex" where
  "alts r [] = r"
| "alts r (r' # rs) = Alt r (alts r' rs)"

section \<open>The content moderation gate\<close>

definition keyword_pattern :: pattern where
  \<comment> \<open>\<^verbatim>\<open>/\b(?:password|ssn|social security|credit card|bank account)\b/i\<close>\<close>
  "keyword_pattern = \<lparr>ignoreCase = True, body =
     seqs [WordBoundary,
           alts (literal ''password'')
                [literal ''ssn'', literal ''social security'', literal ''credit card'',
                 literal ''bank account''],
           WordBoundary]\<rparr>"

definition dash_or_space :: regex where
  \<comment> \<open>\<^verbatim>\<open>[-\s]\<close>\<close>
  "dash_or_space = Atom (OneOf [Chr (CHR ''-''), WhiteSpace])"

definition credit_card_pattern :: pattern where
  \<comment> \<open>\<^verbatim>\<open>/\b\d{4}[-\s]?\d{4}[-\s]?\d{4}[-\s]?\d{4}\b/\<close>\<close>
  "credit_card_pattern = \<lparr>ignoreCase = False, body =
     seqs [WordBoundary,
           Repeat 4 (Atom Digit), Opt dash_or_space,
           Repeat 4 (Atom Digit), Opt dash_or_space,
           Repeat 4 (Atom Digit), Opt dash_or_space,
           Repeat 4 (Atom Digit),
           WordBoundary]\<rparr>"

definition ssn_pattern :: pattern where
  \<comment> \<open>\<^verbatim>\<open>/\b\d{3}-\d{2}-\d{4}\b/\<close>\<close>
  "ssn_pattern = \<lparr>ignoreCase = False, body =
     seqs [WordBoundary,
           Repeat 3 (Atom Digit), Atom (Chr (CHR ''-'')),
           Repeat 2 (Atom Digit), Atom (Chr (CHR ''-'')),
           Repeat 4 (Atom Digit),
           WordBoundary]\<rparr>"

definition sensitivePatterns :: "pattern list" where
  "sensitivePatterns = [keyword_pattern, credit_card_pattern, ssn_pattern]"

record moderation =
  flagged :: bool
  reason :: "string option"

fun check_patterns :: "pattern list \<Rightarrow> string \<Rightarrow> moderation" where
  \<comment> \<open>the \<^verbatim>\<open>for\<close> loop over the patterns, returning at the first one that matches\<close>
  "check_patterns [] message = \<lparr>flagged = False, reason = None\<rparr>"
| "check_patterns (p # ps) message =
     (if test p message
      then \<lparr>flagged = True, reason = Some ''Message contains potentially sensitive information''\<rparr>
      else check_patterns ps message)"

definition checkContentModeration :: "string \<Rightarrow> moderation" where
  "checkContentModeration message = check_patterns sensitivePatterns message"


section \<open>Data model\<close>

text \<open>
  The interfaces \<^verbatim>\<open>ChatDevice\<close> and \<^verbatim>\<open>ChatMessage\<close>. Both have a field \<^verbatim>\<open>id\<close>; the
  records call them \<open>device_id\<close> and \<open>message_id\<close>. Likewise \<^verbatim>\<open>name\<close> is \<open>device_name\<close>,
  and \<^verbatim>\<open>deviceId\<close> and \<^verbatim>\<open>message\<close> of a message are \<open>message_deviceId\<close> and
  \<open>message_text\<close>.
  A \<^verbatim>\<open>Date\<close> is its time value, the milliseconds since the epoch.
\<close>

type_synonym date = nat

record ChatDevice =
  device_id :: string
  device_name :: string
  rssi :: int
  connected :: bool
  lastSeen :: date

record ChatMessage =
  message_id :: string
  message_deviceId :: string
  message_text :: string
  timestamp :: date
  sent :: bool
  encrypted :: bool

datatype BleDevice = BleDevice string

type_synonym byte = "8 word"

datatype error =
    DeviceNotFound
  | DeviceNotConnected
  | BleClientError
  | CryptoError

text \<open>
  What the service does to the outside world is recorded in the state: the calls it
  issues to \<^verbatim>\<open>BleClient\<close>, in order, and the lines it writes to the console.
\<close>

datatype ble_call =
    Initialize
  | RequestLEScan string
  | StopLEScan
  | Connect string
  | GetServices string
  | Disconnect string
  | Write string string string "byte list"
  | StartNotifications string string string

datatype console_line =
    Log string
  | Error string error

record state =
  devices :: "(string \<times> ChatDevice) list"
  connections :: "(string \<times> BleDevice) list"
  calls :: "ble_call list"
  console :: "console_line list"

text \<open>
  The two \<^verbatim>\<open>Map\<close>s are association lists in insertion order: \<^verbatim>\<open>Map.set\<close> is
  \<^const>\<open>AList.update\<close> (an existing key keeps its place, a new key goes last),
  \<^verbatim>\<open>Map.get\<close> is \<^const>\<open>map_of\<close>, \<^verbatim>\<open>Map.delete\<close> is \<^const>\<open>AList.delete\<close>.
\<close>

definition initial :: state where
  "initial = \<lparr>devices = [], connections = [], calls = [], console = []\<rparr>"

definition encryptionKey :: string where
  "encryptionKey = ''MeshChat_Secret_Key_2024''"

definition SERVICE_UUID :: string where
  "SERVICE_UUID = ''12345678-1234-1234-1234-123456789abc''"

definition MESSAGE_CHARACTERISTIC_UUID :: string where
  "MESSAGE_CHARACTERISTIC_UUID = ''87654321-4321-4321-4321-cba987654321''"

section \<open>The ports\<close>

text \<open>
  \<^verbatim>\<open>BleClient\<close>, \<^verbatim>\<open>CryptoJS\<close>, \<^verbatim>\<open>TextEncoder\<close> and \<^verbatim>\<open>TextDecoder\<close> are libraries
  outside the repository, so they are parameters of the model. Of the radio, the service
  only observes whether a call resolves or rejects.
\<close>

record BleClient =
  initialize_ok :: bool
  requestLEScan_ok :: bool
  stopLEScan_ok :: bool
  connect_ok :: "string \<Rightarrow> bool"
  getServices_ok :: "string \<Rightarrow> bool"
  disconnect_ok :: "string \<Rightarrow> bool"
  write_ok :: "string \<Rightarrow> byte list \<Rightarrow> bool"
  startNotifications_ok :: "string \<Rightarrow> bool"

record platform =
  AES_encrypt :: "string \<Rightarrow> string \<Rightarrow> error + string"
    \<comment> \<open>\<^verbatim>\<open>CryptoJS.AES.encrypt(message, key).toString()\<close>\<close>
  AES_decrypt :: "string \<Rightarrow> string \<Rightarrow> error + string"
    \<comment> \<open>\<^verbatim>\<open>CryptoJS.AES.decrypt(text, key).toString(CryptoJS.enc.Utf8)\<close>\<close>
  TextEncoder_encode :: "string \<Rightarrow> byte list"
  TextDecoder_decode :: "byte list \<Rightarrow> string"

text \<open>
  The conversions between a \<^verbatim>\<open>Uint8Array\<close>, an array of numbers and a \<^verbatim>\<open>DataView\<close>.
  A \<^verbatim>\<open>DataView\<close> is the list of its bytes; storing a number in a \<^verbatim>\<open>Uint8Array\<close>
  reduces it modulo 256.
\<close>

definition Array_from :: "byte list \<Rightarrow> nat list" where
  "Array_from messageData = map unat messageData"

definition Uint8Array :: "nat list \<Rightarrow> byte list" where
  "Uint8Array numbers = map of_nat numbers"

definition numbersToDataView :: "nat list \<Rightarrow> byte list" where
  "numbersToDataView numbers = Uint8Array numbers"

definition dataViewToNumbers :: "byte list \<Rightarrow> nat list" where
  "dataViewToNumbers dataView = map unat dataView"

section \<open>The Bluetooth service\<close>

text \<open>
  Each method takes the state and returns its outcome with the new state: \<open>Inr\<close> a value
  when the promise resolves, \<open>Inl\<close> an error when it rejects. A method runs from its call
  to its return without another one in between.
\<close>

definition call :: "ble_call \<Rightarrow> state \<Rightarrow> state" where
  "call c s = s\<lparr>calls := calls s @ [c]\<rparr>"

definition console_log :: "string \<Rightarrow> state \<Rightarrow> state" where
  "console_log text s = s\<lparr>console := console s @ [Log text]\<rparr>"

definition console_error :: "string \<Rightarrow> error \<Rightarrow> state \<Rightarrow> state" where
  "console_error text e s = s\<lparr>console := console s @ [Error text e]\<rparr>"

definition initialize :: "BleClient \<Rightarrow> state \<Rightarrow> (error + unit) \<times> state" where
  "initialize ble s =
     (let s1 = call Initialize s in
      if initialize_ok ble then (Inr (), console_log ''Bluetooth LE initialized'' s1)
      else (Inl BleClientError,
            console_error ''Failed to initialize Bluetooth LE:'' BleClientError s1))"

record ScanResult =
  result_deviceId :: string
  result_name :: "string option"
  result_rssi :: int

definition slice_last4 :: "string \<Rightarrow> string" where
  \<comment> \<open>\<^verbatim>\<open>slice(-4)\<close>: the last four code units, or all of a shorter string\<close>
  "slice_last4 text = drop (length text - 4) text"

definition scan_callback :: "date \<Rightarrow> ScanResult \<Rightarrow> state \<Rightarrow> state" where
  \<comment> \<open>the callback given to \<^verbatim>\<open>requestLEScan\<close>, run for a discovery event at time \<open>now\<close>\<close>
  "scan_callback now result s =
     (let device = \<lparr>
            device_id = result_deviceId result,
            device_name =
              (case result_name result of
                 None \<Rightarrow> ''Device_'' @ slice_last4 (result_deviceId result)
               | Some n \<Rightarrow> if n = [] then ''Device_'' @ slice_last4 (result_deviceId result) else n),
            rssi = result_rssi result,
            connected = False,
            lastSeen = now\<rparr>
      in s\<lparr>devices := AList.update (device_id device) device (devices s)\<rparr>)"

definition startScanning :: "BleClient \<Rightarrow> state \<Rightarrow> (error + ChatDevice list) \<times> state" where
  \<comment> \<open>the discovery events and the stop after ten seconds come later, as
      \<^const>\<open>scan_callback\<close> and \<open>stopScanning\<close>\<close>
  "startScanning ble s =
     (let s1 = call (RequestLEScan SERVICE_UUID) s in
      if requestLEScan_ok ble then (Inr (map snd (devices s1)), s1)
      else (Inl BleClientError, console_error ''Failed to start scanning:'' BleClientError s1))"

definition stopScanning :: "BleClient \<Rightarrow> state \<Rightarrow> (error + unit) \<times> state" where
  "stopScanning ble s =
     (let s1 = call StopLEScan s in
      if stopLEScan_ok ble then (Inr (), console_log ''Stopped scanning'' s1)
      else (Inr (), console_error ''Failed to stop scanning:'' BleClientError s1))"

definition try_connectToDevice :: "BleClient \<Rightarrow> string \<Rightarrow> state \<Rightarrow> (error + unit) \<times> state" where
  \<comment> \<open>the \<^verbatim>\<open>try\<close> block of \<^verbatim>\<open>connectToDevice\<close>\<close>
  "try_connectToDevice ble deviceId s =
     (case map_of (devices s) deviceId of
        None \<Rightarrow> (Inl DeviceNotFound, s)
      | Some device \<Rightarrow>
          let s1 = call (Connect deviceId) s in
          if \<not> connect_ok ble deviceId then (Inl BleClientError, s1)
          else
            let s2 = call (GetServices deviceId) s1 in
            if \<not> getServices_ok ble deviceId then (Inl BleClientError, s2)
            else
              let s3 = console_log ''Discovered services:'' s2;
                  s4 = s3\<lparr>connections := AList.update deviceId (BleDevice deviceId) (connections s3)\<rparr>;
                  device' = device\<lparr>connected := True\<rparr>;
                  s5 = s4\<lparr>devices := AList.update deviceId device' (devices s4)\<rparr>
              in (Inr (), s5))"

definition connectToDevice :: "BleClient \<Rightarrow> string \<Rightarrow> state \<Rightarrow> (error + bool) \<times> state" where
  "connectToDevice ble deviceId s =
     (case try_connectToDevice ble deviceId s of
        (Inr u, s') \<Rightarrow> (Inr True, s')
      | (Inl e, s') \<Rightarrow> (Inr False, console_error ''Failed to connect to device:'' e s'))"

definition try_disconnectFromDevice :: "BleClient \<Rightarrow> string \<Rightarrow> state \<Rightarrow> (error + unit) \<times> state" where
  \<comment> \<open>the \<^verbatim>\<open>try\<close> block of \<^verbatim>\<open>disconnectFromDevice\<close>\<close>
  "try_disconnectFromDevice ble deviceId s =
     (let s1 = call (Disconnect deviceId) s in
      if \<not> disconnect_ok ble deviceId then (Inl BleClientError, s1)
      else
        let s2 = s1\<lparr>connections := AList.delete deviceId (connections s1)\<rparr> in
        case map_of (devices s2) deviceId of
          None \<Rightarrow> (Inr (), s2)
        | Some device \<Rightarrow>
            (Inr (), s2\<lparr>devices := AList.update deviceId (device\<lparr>connected := False\<rparr>) (devices s2)\<rparr>))"

definition disconnectFromDevice :: "BleClient \<Rightarrow> string \<Rightarrow> state \<Rightarrow> (error + unit) \<times> state" where
  "disconnectFromDevice ble deviceId s =
     (case try_disconnectFromDevice ble deviceId s of
        (Inr u, s') \<Rightarrow> (Inr (), s')
      | (Inl e, s') \<Rightarrow> (Inr (), console_error ''Failed to disconnect from device:'' e s'))"

definition try_sendMessage ::
  "platform \<Rightarrow> BleClient \<Rightarrow> string \<Rightarrow> string \<Rightarrow> state \<Rightarrow> (error + unit) \<times> state" where
  \<comment> \<open>the \<^verbatim>\<open>try\<close> block of \<^verbatim>\<open>sendMessage\<close>\<close>
  "try_sendMessage P ble deviceId message s =
     (if map_of (connections s) deviceId = None then (Inl DeviceNotConnected, s)
      else
        case AES_encrypt P message encryptionKey of
          Inl e \<Rightarrow> (Inl e, s)
        | Inr encryptedMessage \<Rightarrow>
            let messageData = TextEncoder_encode P encryptedMessage;
                dataView = numbersToDataView (Array_from messageData);
                s1 = call (Write deviceId SERVICE_UUID MESSAGE_CHARACTERISTIC_UUID dataView) s
            in if write_ok ble deviceId dataView then (Inr (), s1) else (Inl BleClientError, s1))"

definition sendMessage ::
  "platform \<Rightarrow> BleClient \<Rightarrow> string \<Rightarrow> string \<Rightarrow> state \<Rightarrow> (error + bool) \<times> state" where
  "sendMessage P ble deviceId message s =
     (case try_sendMessage P ble deviceId message s of
        (Inr u, s') \<Rightarrow> (Inr True, s')
      | (Inl e, s') \<Rightarrow> (Inr False, console_error ''Failed to send message:'' e s'))"


definition digit_char :: "nat \<Rightarrow> char" where
  "digit_char d = char_of (48 + d)"

function toString :: "nat \<Rightarrow> string" where
  \<comment> \<open>\<^verbatim>\<open>Number.prototype.toString\<close> of a natural number: its decimal digits\<close>
  "toString n = (if n < 10 then [digit_char n] else toString (n div 10) @ [digit_char (n mod 10)])"
  by pat_completeness auto
termination
  by (relation "measure (\<lambda>n. n)") auto

definition startMessageListener :: "BleClient \<Rightarrow> string \<Rightarrow> state \<Rightarrow> (error + unit) \<times> state" where
  \<comment> \<open>the handler it installs is \<open>notification_callback\<close>\<close>
  "startMessageListener ble deviceId s =
     (let s1 = call (StartNotifications deviceId SERVICE_UUID MESSAGE_CHARACTERISTIC_UUID) s in
      if startNotifications_ok ble deviceId then (Inr (), s1)
      else (Inr (), console_error ''Failed to start message listener:'' BleClientError s1))"

definition notification_callback ::
  "platform \<Rightarrow> date \<Rightarrow> date \<Rightarrow> string \<Rightarrow> byte list \<Rightarrow> state \<Rightarrow> ChatMessage option \<times> state" where
  \<comment> \<open>the handler run for a notification \<open>v\<close>; \<open>now\<close> is what \<^verbatim>\<open>Date.now()\<close> returns and
      \<open>date\<close> is the \<^verbatim>\<open>new Date()\<close>; the result is the message handed to \<^verbatim>\<open>onMessage\<close>\<close>
  "notification_callback P now date deviceId v s =
     (let messageData = dataViewToNumbers v;
          encryptedMessage = TextDecoder_decode P (Uint8Array messageData)
      in case AES_decrypt P encryptedMessage encryptionKey of
           Inl e \<Rightarrow> (None, console_error ''Failed to process received message:'' e s)
         | Inr decryptedMessage \<Rightarrow>
             (Some \<lparr>message_id = toString now,
                    message_deviceId = deviceId,
                    message_text = decryptedMessage,
                    timestamp = date,
                    sent = False,
                    encrypted = True\<rparr>, s))"

definition getConnectedDevices :: "state \<Rightarrow> ChatDevice list" where
  "getConnectedDevices s = filter connected (map snd (devices s))"

definition getAllDevices :: "state \<Rightarrow> ChatDevice list" where
  "getAllDevices s = map snd (devices s)"

text \<open>
  The loop of \<^verbatim>\<open>cleanup\<close> runs over the keys of \<^verbatim>\<open>connections\<close> while
  \<^verbatim>\<open>disconnectFromDevice\<close> deletes from it. A call deletes no key but the one the loop
  is at, so the loop visits every key the map had at the start, in order.
\<close>

fun disconnect_all :: "BleClient \<Rightarrow> string list \<Rightarrow> state \<Rightarrow> (error + unit) \<times> state" where
  "disconnect_all ble [] s = (Inr (), s)"
| "disconnect_all ble (deviceId # rest) s =
     (case disconnectFromDevice ble deviceId s of
        (Inl e, s') \<Rightarrow> (Inl e, s')
      | (Inr u, s') \<Rightarrow> disconnect_all ble rest s')"

definition try_cleanup :: "BleClient \<Rightarrow> state \<Rightarrow> (error + unit) \<times> state" where
  \<comment> \<open>the \<^verbatim>\<open>try\<close> block of \<^verbatim>\<open>cleanup\<close>\<close>
  "try_cleanup ble s =
     (case disconnect_all ble (map fst (connections s)) s of
        (Inl e, s') \<Rightarrow> (Inl e, s')
      | (Inr u, s1) \<Rightarrow>
          (case stopScanning ble s1 of
             (Inl e, s') \<Rightarrow> (Inl e, s')
           | (Inr u, s2) \<Rightarrow> (Inr (), console_log ''Bluetooth service cleaned up'' s2)))"

definition cleanup :: "BleClient \<Rightarrow> state \<Rightarrow> (error + unit) \<times> state" where
  "cleanup ble s =
     (case try_cleanup ble s of
        (Inr u, s') \<Rightarrow> (Inr (), s')
      | (Inl e, s') \<Rightarrow> (Inr (), console_error ''Error during cleanup:'' e s'))"

section \<open>The chat screen\<close>

text \<open>
  The state of the component \<^verbatim>\<open>ChatInterface\<close> and its send handler; \<open>toasts\<close> are the
  titles of the toasts shown.
\<close>

record ChatInterface =
  messages :: "ChatMessage list"
  newMessage :: string
  sending :: bool
  moderationWarning :: "string option"
  toasts :: "string list"

definition trim :: "string \<Rightarrow> string" where
  "trim text = rev (dropWhile is_white_space (rev (dropWhile is_white_space text)))"

definition onMessage :: "ChatMessage \<Rightarrow> ChatInterface \<Rightarrow> ChatInterface" where
  \<comment> \<open>the callback the component gives to \<^verbatim>\<open>startMessageListener\<close>\<close>
  "onMessage m ui = ui\<lparr>messages := messages ui @ [m]\<rparr>"

definition handleSendMessage ::
  "platform \<Rightarrow> BleClient \<Rightarrow> date \<Rightarrow> date \<Rightarrow> ChatDevice \<Rightarrow> ChatInterface \<Rightarrow> state
     \<Rightarrow> ChatInterface \<times> state" where
  "handleSendMessage P ble now date device ui s =
     (if trim (newMessage ui) = [] then (ui, s)
      else
        let ui1 = ui\<lparr>sending := True, moderationWarning := None\<rparr>;
            moderation = checkContentModeration (newMessage ui)
        in if flagged moderation then
             (ui1\<lparr>moderationWarning :=
                     Some (case reason moderation of
                             None \<Rightarrow> ''Content flagged for review''
                           | Some r \<Rightarrow> if r = [] then ''Content flagged for review'' else r),
                   sending := False\<rparr>, s)
           else
             (case sendMessage P ble (device_id device) (newMessage ui) s of
                (Inr True, s') \<Rightarrow>
                  (let sentMessage = \<lparr>message_id = toString now,
                                      message_deviceId = device_id device,
                                      message_text = newMessage ui,
                                      timestamp = date,
                                      sent = True,
                                      encrypted = True\<rparr>
                   in (ui1\<lparr>messages := messages ui1 @ [sentMessage],
                           newMessage := [],
                           toasts := toasts ui1 @ [''Message Sent''],
                           sending := False\<rparr>, s'))
              | (r, s') \<Rightarrow>
                  (ui1\<lparr>toasts := toasts ui1 @ [''Send Failed''], sending := False\<rparr>, s')))"

section \<open>Reachable states and the pairing of records and sessions\<close>

text \<open>
  The service starts with both maps empty, and every method and every callback is a step.
  The rules do not say when the radio raises a discovery event or a notification.
\<close>

inductive reachable :: "state \<Rightarrow> bool" where
  start: "reachable initial"
| initialized: "reachable s \<Longrightarrow> reachable (snd (initialize ble s))"
| scan_started: "reachable s \<Longrightarrow> reachable (snd (startScanning ble s))"
| discovered: "reachable s \<Longrightarrow> reachable (scan_callback now result s)"
| scan_stopped: "reachable s \<Longrightarrow> reachable (snd (stopScanning ble s))"
| connect: "reachable s \<Longrightarrow> reachable (snd (connectToDevice ble deviceId s))"
| disconnect: "reachable s \<Longrightarrow> reachable (snd (disconnectFromDevice ble deviceId s))"
| send: "reachable s \<Longrightarrow> reachable (snd (sendMessage P ble deviceId text s))"
| listen: "reachable s \<Longrightarrow> reachable (snd (startMessageListener ble deviceId s))"
| notified: "reachable s \<Longrightarrow> reachable (snd (notification_callback P now date deviceId v s))"
| cleaned: "reachable s \<Longrightarrow> reachable (snd (cleanup ble s))"

definition has_session :: "state \<Rightarrow> string \<Rightarrow> bool" where
  \<comment> \<open>\<^verbatim>\<open>connections.has(deviceId)\<close>\<close>
  "has_session s deviceId = (map_of (connections s) deviceId \<noteq> None)"

definition paired :: "state \<Rightarrow> bool" where
  \<comment> \<open>every record is marked connected exactly when its id has a session\<close>
  "paired s = list_all (\<lambda>(k, d). connected d = has_session s k) (devices s)"

definition one_record_per_id :: "state \<Rightarrow> bool" where
  "one_record_per_id s = distinct (map fst (devices s))"

section \<open>Stand-ins for the ports\<close>

text \<open>
  To run the model on concrete inputs the ports need concrete values: a radio on which
  every call resolves, one on which every call rejects, and a platform whose cipher
  reverses the text and whose text codec maps a code unit to the byte of the same value.
\<close>

definition radio_ok :: BleClient where
  "radio_ok = \<lparr>initialize_ok = True, requestLEScan_ok = True, stopLEScan_ok = True,
     connect_ok = (\<lambda>d. True), getServices_ok = (\<lambda>d. True), disconnect_ok = (\<lambda>d. True),
     write_ok = (\<lambda>d v. True), startNotifications_ok = (\<lambda>d. True)\<rparr>"

definition radio_down :: BleClient where
  "radio_down = \<lparr>initialize_ok = False, requestLEScan_ok = False, stopLEScan_ok = False,
     connect_ok = (\<lambda>d. False), getServices_ok = (\<lambda>d. False), disconnect_ok = (\<lambda>d. False),
     write_ok = (\<lambda>d v. False), startNotifications_ok = (\<lambda>d. False)\<rparr>"

definition mirror :: platform where
  "mirror = \<lparr>AES_encrypt = (\<lambda>text key. Inr (rev text)),
     AES_decrypt = (\<lambda>text key. Inr (rev text)),
     TextEncoder_encode = map (\<lambda>c. of_nat (code_unit c)),
     TextDecoder_decode = map (\<lambda>b. char_of (unat b))\<rparr>"


text \<open>
  Example states: a scan that heard two peers, then a session with the first, then with
  both; and a radio on which disconnecting the first peer fails.
\<close>

definition peer :: ScanResult where
  "peer = \<lparr>result_deviceId = ''AA:BB:CC:DD:EE:FF'', result_name = None, result_rssi = - 40\<rparr>"

definition other_peer :: ScanResult where
  "other_peer =
     \<lparr>result_deviceId = ''11:22:33:44:55:66'', result_name = Some ''Bob'', result_rssi = - 71\<rparr>"

definition scanned :: state where
  "scanned =
     scan_callback 1001 other_peer (scan_callback 1000 peer (snd (startScanning radio_ok initial)))"

definition linked :: state where
  "linked = snd (connectToDevice radio_ok ''AA:BB:CC:DD:EE:FF'' scanned)"

definition both_linked :: state where
  "both_linked = snd (connectToDevice radio_ok ''11:22:33:44:55:66'' linked)"

definition radio_flaky :: BleClient where
  "radio_flaky = radio_ok\<lparr>disconnect_ok := (\<lambda>d. d \<noteq> ''AA:BB:CC:DD:EE:FF'')\<rparr>"

text \<open>
  The first peer as the chat screen holds it, a chat screen with \<open>hi\<close> typed in, one with
  a flagged text typed in, and the state after the first peer is heard again while the
  session with it exists.
\<close>

definition peer_device :: ChatDevice where
  "peer_device = \<lparr>device_id = ''AA:BB:CC:DD:EE:FF'', device_name = ''Device_E:FF'',
     rssi = - 40, connected = True, lastSeen = 1000\<rparr>"

definition composing :: ChatInterface where
  "composing = \<lparr>messages = [], newMessage = ''hi'', sending = False,
     moderationWarning = None, toasts = []\<rparr>"

definition draft :: ChatInterface where
  "draft = \<lparr>messages = [], newMessage = ''my ssn is 123-45-6789'', sending = False,
     moderationWarning = None, toasts = []\<rparr>"

definition rediscovered :: state where
  "rediscovered = scan_callback 2000 peer linked"

section \<open>Basic facts\<close>

declare toString.simps [simp del]

lemma call_frame [simp]:
  "devices (call c s) = devices s" "connections (call c s) = connections s"
  "console (call c s) = console s" "calls (call c s) = calls s @ [c]"
  by (simp_all add: call_def)

lemma console_log_frame [simp]:
  "devices (console_log t s) = devices s" "connections (console_log t s) = connections s"
  "calls (console_log t s) = calls s" "console (console_log t s) = console s @ [Log t]"
  by (simp_all add: console_log_def)

lemma console_error_frame [simp]:
  "devices (console_error t e s) = devices s" "connections (console_error t e s) = connections s"
  "calls (console_error t e s) = calls s" "console (console_error t e s) = console s @ [Error t e]"
  by (simp_all add: console_error_def)

lemma disconnect_ok_state:
  assumes "disconnect_ok ble deviceId"
  shows "disconnectFromDevice ble deviceId s =
    (Inr (), (call (Disconnect deviceId) s)\<lparr>
        connections := AList.delete deviceId (connections s),
        devices := (case map_of (devices s) deviceId of None \<Rightarrow> devices s
                    | Some d \<Rightarrow> AList.update deviceId (d\<lparr>connected := False\<rparr>) (devices s))\<rparr>)"
  using assms
  by (simp add: disconnectFromDevice_def try_disconnectFromDevice_def Let_def split: option.splits)

lemma disconnect_fail_state:
  assumes "\<not> disconnect_ok ble deviceId"
  shows "disconnectFromDevice ble deviceId s =
    (Inr (), console_error ''Failed to disconnect from device:'' BleClientError
               (call (Disconnect deviceId) s))"
  using assms
  by (simp add: disconnectFromDevice_def try_disconnectFromDevice_def Let_def)

lemma no_session_delete:
  assumes "\<not> has_session s k"
  shows "AList.delete k (connections s) = connections s"
proof -
  from assms have "k \<notin> fst ` set (connections s)"
    by (simp add: has_session_def map_of_eq_None_iff)
  then show ?thesis by simp
qed

lemma disconnect_resolves: "fst (disconnectFromDevice ble k s) = Inr ()"
  by (cases "disconnect_ok ble k") (simp_all add: disconnect_ok_state disconnect_fail_state)

lemma disconnect_connections:
  "connections (snd (disconnectFromDevice ble k s)) =
     (if disconnect_ok ble k then AList.delete k (connections s) else connections s)"
  by (simp add: disconnect_ok_state disconnect_fail_state)

lemma disconnect_devices_lookup:
  "map_of (devices (snd (disconnectFromDevice ble k s))) k' =
     (if disconnect_ok ble k \<and> k' = k
      then map_option (\<lambda>d. d\<lparr>connected := False\<rparr>) (map_of (devices s) k)
      else map_of (devices s) k')"
proof (cases "disconnect_ok ble k")
  case True
  then show ?thesis
    by (cases "map_of (devices s) k") (simp_all add: disconnect_ok_state update_conv')
next
  case False
  then show ?thesis by (simp add: disconnect_fail_state)
qed

lemma disconnect_all_resolves: "fst (disconnect_all ble ks s) = Inr ()"
proof (induction ks arbitrary: s)
  case Nil
  show ?case by simp
next
  case (Cons k ks)
  obtain r s' where step: "disconnectFromDevice ble k s = (r, s')"
    by (cases "disconnectFromDevice ble k s")
  with disconnect_resolves [of ble k s] have "r = Inr ()" by simp
  with step Cons.IH [of s'] show ?case by simp
qed

lemma disconnect_all_step:
  "disconnect_all ble (k # ks) s = disconnect_all ble ks (snd (disconnectFromDevice ble k s))"
proof -
  obtain r s' where step: "disconnectFromDevice ble k s = (r, s')"
    by (cases "disconnectFromDevice ble k s")
  with disconnect_resolves [of ble k s] have "r = Inr ()" by simp
  with step show ?thesis by simp
qed

lemma disconnect_all_connections:
  "connections (snd (disconnect_all ble ks s)) =
     filter (\<lambda>(k, v). \<not> (k \<in> set ks \<and> disconnect_ok ble k)) (connections s)"
proof (induction ks arbitrary: s)
  case Nil
  show ?case by simp
next
  case (Cons k ks)
  show ?case
    unfolding disconnect_all_step Cons.IH disconnect_connections
    by (auto simp: AList.delete_eq intro!: filter_cong)
qed

lemma disconnect_all_devices_lookup:
  "map_of (devices (snd (disconnect_all ble ks s))) k' =
     (if k' \<in> set ks \<and> disconnect_ok ble k'
      then map_option (\<lambda>d. d\<lparr>connected := False\<rparr>) (map_of (devices s) k')
      else map_of (devices s) k')"
proof (induction ks arbitrary: s)
  case Nil
  show ?case by simp
next
  case (Cons k ks)
  show ?case
    unfolding disconnect_all_step Cons.IH disconnect_devices_lookup
    by (auto simp: option.map_comp comp_def)
qed

lemma has_session_keys: "has_session s k = (k \<in> set (map fst (connections s)))"
  by (simp add: has_session_def map_of_eq_None_iff)

lemma cleanup_state:
  "cleanup ble s = (Inr (), console_log ''Bluetooth service cleaned up''
       (snd (stopScanning ble (snd (disconnect_all ble (map fst (connections s)) s)))))"
proof -
  obtain r s1 where all: "disconnect_all ble (map fst (connections s)) s = (r, s1)"
    by (cases "disconnect_all ble (map fst (connections s)) s")
  with disconnect_all_resolves [of ble "map fst (connections s)" s] have r: "r = Inr ()" by simp
  show ?thesis
    by (simp add: cleanup_def try_cleanup_def all r stopScanning_def Let_def)
qed

lemma stopScanning_frame [simp]:
  "devices (snd (stopScanning ble s)) = devices s"
  "connections (snd (stopScanning ble s)) = connections s"
  by (simp_all add: stopScanning_def Let_def)

lemma reachable_linked: "reachable linked"
  unfolding linked_def scanned_def
  by (intro reachable.intros)

lemma cleanup_connections:
  "connections (snd (cleanup ble s)) = filter (\<lambda>(k, v). \<not> disconnect_ok ble k) (connections s)"
  by (force simp: cleanup_state disconnect_all_connections intro!: filter_cong)

lemma cleanup_devices_lookup:
  "map_of (devices (snd (cleanup ble s))) k =
     (if has_session s k \<and> disconnect_ok ble k
      then map_option (\<lambda>d. d\<lparr>connected := False\<rparr>) (map_of (devices s) k)
      else map_of (devices s) k)"
  by (simp add: cleanup_state disconnect_all_devices_lookup has_session_keys)

lemma reachable_connected_has_session:
  assumes "reachable s" and "map_of (devices s) k = Some d" and "connected d"
  shows "has_session s k"
  using assms
proof (induction arbitrary: k d rule: reachable.induct)
  case start
  then show ?case by (simp add: initial_def)
next
  case (initialized s ble)
  then show ?case by (simp add: has_session_def initialize_def Let_def split: if_splits)
next
  case (scan_started s ble)
  then show ?case by (simp add: has_session_def startScanning_def Let_def split: if_splits)
next
  case (discovered s now result)
  then show ?case
    by (auto simp: has_session_def scan_callback_def Let_def update_conv' split: if_splits)
next
  case (scan_stopped s ble)
  then show ?case by (simp add: has_session_def)
next
  case (connect s ble deviceId)
  then show ?case
    by (auto simp: has_session_def connectToDevice_def try_connectToDevice_def Let_def update_conv'
        split: option.splits if_splits)
next
  case (disconnect s ble deviceId)
  then show ?case
    by (auto simp: has_session_def disconnect_devices_lookup disconnect_connections delete_conv'
        split: if_splits)
next
  case (send s P ble deviceId t)
  then show ?case
    by (simp add: has_session_def sendMessage_def try_sendMessage_def Let_def
             split: sum.splits if_splits)
next
  case (listen s ble deviceId)
  then show ?case by (simp add: has_session_def startMessageListener_def Let_def split: if_splits)
next
  case (notified s P now date deviceId v)
  then show ?case
    by (simp add: has_session_def notification_callback_def Let_def split: sum.splits)
next
  case (cleaned s ble)
  from cleaned.prems have old: "map_of (devices s) k = Some d" and keep: "\<not> (has_session s k \<and> disconnect_ok ble k)"
    by (auto simp: cleanup_devices_lookup split: if_splits)
  from cleaned.IH [OF old cleaned.prems(2)] have live: "has_session s k" .
  with keep have "\<not> disconnect_ok ble k" by simp
  with live show ?case
    by (force simp: has_session_keys cleanup_connections)
qed

lemma reachable_rediscovered: "reachable rediscovered"
  unfolding rediscovered_def by (intro reachable.intros reachable_linked)

lemma disconnect_without_session:
  assumes n: "\<not> has_session s deviceId"
    and f: "\<forall>d. map_of (devices s) deviceId = Some d \<longrightarrow> \<not> connected d"
  shows "devices (snd (disconnectFromDevice ble deviceId s)) = devices s
       \<and> connections (snd (disconnectFromDevice ble deviceId s)) = connections s"
proof (cases "disconnect_ok ble deviceId")
  case False
  then show ?thesis by (simp add: disconnect_fail_state)
next
  case True
  show ?thesis
  proof (cases "map_of (devices s) deviceId")
    case None
    with True n show ?thesis by (simp add: disconnect_ok_state no_session_delete)
  next
    case (Some d)
    with f have "\<not> connected d" by simp
    then have "d\<lparr>connected := False\<rparr> = d" by simp
    with Some have "AList.update deviceId (d\<lparr>connected := False\<rparr>) (devices s) = devices s"
      by (simp add: update_triv)
    with True n Some show ?thesis by (simp add: disconnect_ok_state no_session_delete)
  qed
qed

section \<open>The content moderation gate: patterns and examples\<close>

text \<open>
  C8. \<^verbatim>\<open>checkContentModeration\<close> depends on the text alone. It flags the text, with the
  one generic reason, exactly when one of the three patterns matches; the SSN example and
  the grouped 16 digits are flagged, \<open>hello there\<close> is not.
\<close>

theorem checkContentModeration_spec:
  "checkContentModeration text =
     (if test keyword_pattern text \<or> test credit_card_pattern text \<or> test ssn_pattern text
      then \<lparr>flagged = True, reason = Some ''Message contains potentially sensitive information''\<rparr>
      else \<lparr>flagged = False, reason = None\<rparr>)
   \<and> flagged (checkContentModeration ''my ssn is 123-45-6789'')
   \<and> flagged (checkContentModeration ''4111 1111 1111 1111'')
   \<and> \<not> flagged (checkContentModeration ''hello there'')"
proof -
  have general: "checkContentModeration text =
     (if test keyword_pattern text \<or> test credit_card_pattern text \<or> test ssn_pattern text
      then \<lparr>flagged = True, reason = Some ''Message contains potentially sensitive information''\<rparr>
      else \<lparr>flagged = False, reason = None\<rparr>)"
    by (simp add: checkContentModeration_def sensitivePatterns_def)
  have a: "flagged (checkContentModeration ''my ssn is 123-45-6789'')" by code_simp
  have b: "flagged (checkContentModeration ''4111 1111 1111 1111'')" by code_simp
  have c: "\<not> flagged (checkContentModeration ''hello there'')" by code_simp
  from general a b c show ?thesis by blast
qed

theorem checkContentModeration_spec_witness:
  "checkContentModeration ''My Password is hunter2'' =
     \<lparr>flagged = True, reason = Some ''Message contains potentially sensitive information''\<rparr>"
proof -
  have "test keyword_pattern ''My Password is hunter2''" by code_simp
  with checkContentModeration_spec [of "''My Password is hunter2''"] show ?thesis by simp
qed

section \<open>Sending leaves the registry and the sessions alone\<close>

text \<open>
  C10. \<^verbatim>\<open>sendMessage\<close> resolves to true or to false, and in both cases the registry and
  the map of sessions are what they were before the call.
\<close>

theorem sendMessage_frame:
  "devices (snd (sendMessage P ble deviceId text s)) = devices s
   \<and> connections (snd (sendMessage P ble deviceId text s)) = connections s
   \<and> (fst (sendMessage P ble deviceId text s) = Inr True
        \<or> fst (sendMessage P ble deviceId text s) = Inr False)"
  by (simp add: sendMessage_def try_sendMessage_def Let_def split: sum.splits)

theorem sendMessage_frame_witness:
  "devices (snd (sendMessage mirror radio_ok ''AA:BB:CC:DD:EE:FF'' ''hi'' linked)) = devices linked
   \<and> connections (snd (sendMessage mirror radio_ok ''AA:BB:CC:DD:EE:FF'' ''hi'' linked))
       = connections linked
   \<and> fst (sendMessage mirror radio_ok ''AA:BB:CC:DD:EE:FF'' ''hi'' linked) = Inr True"
proof -
  have "fst (sendMessage mirror radio_ok ''AA:BB:CC:DD:EE:FF'' ''hi'' linked) = Inr True"
    by code_simp
  with sendMessage_frame [of mirror radio_ok "''AA:BB:CC:DD:EE:FF''" "''hi''" linked]
  show ?thesis by simp
qed

section \<open>Connecting\<close>

text \<open>
  C7. When the id is not in the registry, or the radio's connect or its service discovery
  fails, \<^verbatim>\<open>connectToDevice\<close> resolves to false (it does not reject) and the registry and the
  sessions are unchanged.
\<close>

theorem connectToDevice_failure:
  assumes "map_of (devices s) deviceId = None
           \<or> \<not> connect_ok ble deviceId \<or> \<not> getServices_ok ble deviceId"
  shows "fst (connectToDevice ble deviceId s) = Inr False
    \<and> devices (snd (connectToDevice ble deviceId s)) = devices s
    \<and> connections (snd (connectToDevice ble deviceId s)) = connections s"
  using assms
  by (auto simp add: connectToDevice_def try_connectToDevice_def Let_def split: option.splits)

theorem connectToDevice_failure_witness:
  "map_of (devices linked) ''00:00:00:00:00:00'' = None
   \<and> fst (connectToDevice radio_ok ''00:00:00:00:00:00'' linked) = Inr False
   \<and> devices (snd (connectToDevice radio_ok ''00:00:00:00:00:00'' linked)) = devices linked
   \<and> connections (snd (connectToDevice radio_ok ''00:00:00:00:00:00'' linked)) = connections linked
   \<and> map_of (devices scanned) ''AA:BB:CC:DD:EE:FF'' \<noteq> None
   \<and> fst (connectToDevice radio_down ''AA:BB:CC:DD:EE:FF'' scanned) = Inr False
   \<and> devices (snd (connectToDevice radio_down ''AA:BB:CC:DD:EE:FF'' scanned)) = devices scanned
   \<and> connections (snd (connectToDevice radio_down ''AA:BB:CC:DD:EE:FF'' scanned))
       = connections scanned"
proof -
  have unknown: "map_of (devices linked) ''00:00:00:00:00:00'' = None" by code_simp
  have known: "map_of (devices scanned) ''AA:BB:CC:DD:EE:FF'' \<noteq> None" by code_simp
  have down: "\<not> connect_ok radio_down ''AA:BB:CC:DD:EE:FF''" by (simp add: radio_down_def)
  from connectToDevice_failure [of linked "''00:00:00:00:00:00''" radio_ok] unknown
  have first: "fst (connectToDevice radio_ok ''00:00:00:00:00:00'' linked) = Inr False
   \<and> devices (snd (connectToDevice radio_ok ''00:00:00:00:00:00'' linked)) = devices linked
   \<and> connections (snd (connectToDevice radio_ok ''00:00:00:00:00:00'' linked)) = connections linked"
    by simp
  from connectToDevice_failure [of scanned "''AA:BB:CC:DD:EE:FF''" radio_down] down
  have "fst (connectToDevice radio_down ''AA:BB:CC:DD:EE:FF'' scanned) = Inr False
   \<and> devices (snd (connectToDevice radio_down ''AA:BB:CC:DD:EE:FF'' scanned)) = devices scanned
   \<and> connections (snd (connectToDevice radio_down ''AA:BB:CC:DD:EE:FF'' scanned))
       = connections scanned"
    by simp
  with unknown known first show ?thesis by blast
qed

section \<open>Disconnecting\<close>

text \<open>
  C4, as the code has it. \<^verbatim>\<open>disconnectFromDevice\<close> never rejects. When the radio's
  disconnect succeeds, the id has no session afterwards and its record, if there is one,
  is marked not connected. When the radio's disconnect fails, the failure is logged and
  the registry and the sessions stay as they were. When the id has no session and its
  record, if there is one, is not marked connected, registry and sessions are unchanged
  either way; in a reachable state that is so whenever the id has no session.
\<close>

theorem disconnectFromDevice_outcome:
  "fst (disconnectFromDevice ble deviceId s) = Inr ()
   \<and> (if disconnect_ok ble deviceId
       then \<not> has_session (snd (disconnectFromDevice ble deviceId s)) deviceId
          \<and> map_of (devices (snd (disconnectFromDevice ble deviceId s))) deviceId
              = map_option (\<lambda>d. d\<lparr>connected := False\<rparr>) (map_of (devices s) deviceId)
       else devices (snd (disconnectFromDevice ble deviceId s)) = devices s
          \<and> connections (snd (disconnectFromDevice ble deviceId s)) = connections s
          \<and> console (snd (disconnectFromDevice ble deviceId s))
              = console s @ [Error ''Failed to disconnect from device:'' BleClientError])
   \<and> (\<not> has_session s deviceId
        \<and> (\<forall>d. map_of (devices s) deviceId = Some d \<longrightarrow> \<not> connected d) \<longrightarrow>
        devices (snd (disconnectFromDevice ble deviceId s)) = devices s
        \<and> connections (snd (disconnectFromDevice ble deviceId s)) = connections s)
   \<and> (reachable s \<and> \<not> has_session s deviceId \<longrightarrow>
        devices (snd (disconnectFromDevice ble deviceId s)) = devices s
        \<and> connections (snd (disconnectFromDevice ble deviceId s)) = connections s)"
proof -
  have resolves: "fst (disconnectFromDevice ble deviceId s) = Inr ()"
    by (rule disconnect_resolves)
  have outcome: "if disconnect_ok ble deviceId
       then \<not> has_session (snd (disconnectFromDevice ble deviceId s)) deviceId
          \<and> map_of (devices (snd (disconnectFromDevice ble deviceId s))) deviceId
              = map_option (\<lambda>d. d\<lparr>connected := False\<rparr>) (map_of (devices s) deviceId)
       else devices (snd (disconnectFromDevice ble deviceId s)) = devices s
          \<and> connections (snd (disconnectFromDevice ble deviceId s)) = connections s
          \<and> console (snd (disconnectFromDevice ble deviceId s))
              = console s @ [Error ''Failed to disconnect from device:'' BleClientError]"
  proof (cases "disconnect_ok ble deviceId")
    case True
    then show ?thesis
      by (simp add: disconnect_ok_state has_session_def delete_conv' update_conv'
               split: option.splits)
  next
    case False
    then show ?thesis by (simp add: disconnect_fail_state)
  qed
  have "local": "devices (snd (disconnectFromDevice ble deviceId s)) = devices s
        \<and> connections (snd (disconnectFromDevice ble deviceId s)) = connections s"
    if "\<not> has_session s deviceId \<and> (\<forall>d. map_of (devices s) deviceId = Some d \<longrightarrow> \<not> connected d)"
    using that by (simp add: disconnect_without_session)
  have reach: "devices (snd (disconnectFromDevice ble deviceId s)) = devices s
        \<and> connections (snd (disconnectFromDevice ble deviceId s)) = connections s"
    if r: "reachable s \<and> \<not> has_session s deviceId"
  proof -
    from r have "\<forall>d. map_of (devices s) deviceId = Some d \<longrightarrow> \<not> connected d"
      using reachable_connected_has_session by blast
    with r show ?thesis by (simp add: disconnect_without_session)
  qed
  from resolves outcome "local" reach show ?thesis by blast
qed

theorem disconnectFromDevice_outcome_witness:
  "disconnect_ok radio_ok ''AA:BB:CC:DD:EE:FF''
   \<and> has_session linked ''AA:BB:CC:DD:EE:FF''
   \<and> fst (disconnectFromDevice radio_ok ''AA:BB:CC:DD:EE:FF'' linked) = Inr ()
   \<and> \<not> has_session (snd (disconnectFromDevice radio_ok ''AA:BB:CC:DD:EE:FF'' linked))
          ''AA:BB:CC:DD:EE:FF''
   \<and> map_option connected
        (map_of (devices (snd (disconnectFromDevice radio_ok ''AA:BB:CC:DD:EE:FF'' linked)))
           ''AA:BB:CC:DD:EE:FF'') = Some False
   \<and> \<not> has_session scanned ''AA:BB:CC:DD:EE:FF''
   \<and> map_option connected (map_of (devices scanned) ''AA:BB:CC:DD:EE:FF'') = Some False
   \<and> devices (snd (disconnectFromDevice radio_ok ''AA:BB:CC:DD:EE:FF'' scanned)) = devices scanned
   \<and> connections (snd (disconnectFromDevice radio_ok ''AA:BB:CC:DD:EE:FF'' scanned))
       = connections scanned
   \<and> reachable rediscovered
   \<and> \<not> has_session rediscovered ''11:22:33:44:55:66''
   \<and> devices (snd (disconnectFromDevice radio_ok ''11:22:33:44:55:66'' rediscovered))
       = devices rediscovered
   \<and> connections (snd (disconnectFromDevice radio_ok ''11:22:33:44:55:66'' rediscovered))
       = connections rediscovered"
proof -
  have ok: "disconnect_ok radio_ok ''AA:BB:CC:DD:EE:FF''" by (simp add: radio_ok_def)
  have live: "has_session linked ''AA:BB:CC:DD:EE:FF''" by code_simp
  have known: "map_option connected (map_of (devices linked) ''AA:BB:CC:DD:EE:FF'') = Some True"
    by code_simp
  have n: "\<not> has_session scanned ''AA:BB:CC:DD:EE:FF''" by code_simp
  have f: "map_option connected (map_of (devices scanned) ''AA:BB:CC:DD:EE:FF'') = Some False"
    by code_simp
  then have f': "\<forall>d. map_of (devices scanned) ''AA:BB:CC:DD:EE:FF'' = Some d \<longrightarrow> \<not> connected d"
    by auto
  have r: "reachable rediscovered" by (rule reachable_rediscovered)
  have n': "\<not> has_session rediscovered ''11:22:33:44:55:66''" by code_simp
  from known obtain d where d: "map_of (devices linked) ''AA:BB:CC:DD:EE:FF'' = Some d"
    by (cases "map_of (devices linked) ''AA:BB:CC:DD:EE:FF''") auto
  from disconnectFromDevice_outcome [of radio_ok "''AA:BB:CC:DD:EE:FF''" linked] ok d
  have after: "fst (disconnectFromDevice radio_ok ''AA:BB:CC:DD:EE:FF'' linked) = Inr ()
    \<and> \<not> has_session (snd (disconnectFromDevice radio_ok ''AA:BB:CC:DD:EE:FF'' linked))
          ''AA:BB:CC:DD:EE:FF''
    \<and> map_option connected
        (map_of (devices (snd (disconnectFromDevice radio_ok ''AA:BB:CC:DD:EE:FF'' linked)))
           ''AA:BB:CC:DD:EE:FF'') = Some False"
    by simp
  from disconnectFromDevice_outcome [of radio_ok "''AA:BB:CC:DD:EE:FF''" scanned] n f'
  have idle: "devices (snd (disconnectFromDevice radio_ok ''AA:BB:CC:DD:EE:FF'' scanned))
        = devices scanned
    \<and> connections (snd (disconnectFromDevice radio_ok ''AA:BB:CC:DD:EE:FF'' scanned))
        = connections scanned"
    by blast
  from disconnectFromDevice_outcome [of radio_ok "''11:22:33:44:55:66''" rediscovered] r n'
  have "devices (snd (disconnectFromDevice radio_ok ''11:22:33:44:55:66'' rediscovered))
        = devices rediscovered
    \<and> connections (snd (disconnectFromDevice radio_ok ''11:22:33:44:55:66'' rediscovered))
        = connections rediscovered"
    by blast
  with ok live after n f idle r n' show ?thesis by blast
qed

text \<open>
  C4 as stated fails: with a live session and a radio whose disconnect rejects, the call
  resolves, and the session and the connected flag are still there.
\<close>

theorem disconnectFromDevice_stuck:
  "fst (disconnectFromDevice radio_down ''AA:BB:CC:DD:EE:FF'' linked) = Inr ()
   \<and> has_session (snd (disconnectFromDevice radio_down ''AA:BB:CC:DD:EE:FF'' linked))
        ''AA:BB:CC:DD:EE:FF''
   \<and> map_option connected
        (map_of (devices (snd (disconnectFromDevice radio_down ''AA:BB:CC:DD:EE:FF'' linked)))
           ''AA:BB:CC:DD:EE:FF'') = Some True"
  by code_simp


section \<open>Cleanup\<close>

text \<open>
  C5, as the code has it. \<^verbatim>\<open>cleanup\<close> never rejects and attempts a disconnect for every
  session. The sessions whose disconnect succeeds are gone afterwards and their records
  are marked not connected; a session whose disconnect fails stays, and its record stays
  as it was. So from two connected devices, both end not connected with no session left
  when both disconnects succeed.
\<close>

theorem cleanup_outcome:
  "fst (cleanup ble s) = Inr ()
   \<and> connections (snd (cleanup ble s)) = filter (\<lambda>(k, v). \<not> disconnect_ok ble k) (connections s)
   \<and> map_of (devices (snd (cleanup ble s))) k =
       (if has_session s k \<and> disconnect_ok ble k
        then map_option (\<lambda>d. d\<lparr>connected := False\<rparr>) (map_of (devices s) k)
        else map_of (devices s) k)"
proof -
  have "connections (snd (cleanup ble s)) = filter (\<lambda>(k, v). \<not> disconnect_ok ble k) (connections s)"
    by (force simp: cleanup_state disconnect_all_connections intro!: filter_cong)
  then show ?thesis
    by (simp add: cleanup_state disconnect_all_devices_lookup has_session_keys)
qed

theorem cleanup_outcome_witness:
  "map fst (connections both_linked) = [''AA:BB:CC:DD:EE:FF'', ''11:22:33:44:55:66'']
   \<and> map (\<lambda>(k, d). connected d) (devices both_linked) = [True, True]
   \<and> fst (cleanup radio_ok both_linked) = Inr ()
   \<and> connections (snd (cleanup radio_ok both_linked)) = []
   \<and> map_option connected
        (map_of (devices (snd (cleanup radio_ok both_linked))) ''AA:BB:CC:DD:EE:FF'') = Some False
   \<and> map_option connected
        (map_of (devices (snd (cleanup radio_ok both_linked))) ''11:22:33:44:55:66'') = Some False"
proof -
  have keys: "map fst (connections both_linked) = [''AA:BB:CC:DD:EE:FF'', ''11:22:33:44:55:66'']"
    by code_simp
  have flags: "map (\<lambda>(k, d). connected d) (devices both_linked) = [True, True]"
    by code_simp
  have a: "map_option connected (map_of (devices both_linked) ''AA:BB:CC:DD:EE:FF'') = Some True"
    by code_simp
  have b: "map_option connected (map_of (devices both_linked) ''11:22:33:44:55:66'') = Some True"
    by code_simp
  have ok: "disconnect_ok radio_ok = (\<lambda>d. True)" by (simp add: radio_ok_def)
  from keys have live: "has_session both_linked ''AA:BB:CC:DD:EE:FF''"
    "has_session both_linked ''11:22:33:44:55:66''"
    by (simp_all add: has_session_keys)
  from a obtain da where da: "map_of (devices both_linked) ''AA:BB:CC:DD:EE:FF'' = Some da"
    by (cases "map_of (devices both_linked) ''AA:BB:CC:DD:EE:FF''") auto
  from b obtain db where db: "map_of (devices both_linked) ''11:22:33:44:55:66'' = Some db"
    by (cases "map_of (devices both_linked) ''11:22:33:44:55:66''") auto
  from cleanup_outcome [of radio_ok both_linked "''AA:BB:CC:DD:EE:FF''"] ok live da
  have first: "fst (cleanup radio_ok both_linked) = Inr ()
    \<and> connections (snd (cleanup radio_ok both_linked)) = []
    \<and> map_option connected
        (map_of (devices (snd (cleanup radio_ok both_linked))) ''AA:BB:CC:DD:EE:FF'') = Some False"
    by simp
  from cleanup_outcome [of radio_ok both_linked "''11:22:33:44:55:66''"] ok live db
  have "map_option connected
        (map_of (devices (snd (cleanup radio_ok both_linked))) ''11:22:33:44:55:66'') = Some False"
    by simp
  with keys flags first show ?thesis by blast
qed

text \<open>
  C5 as stated fails: from two connected devices, with a radio on which the disconnect of
  the first fails, \<^verbatim>\<open>cleanup\<close> resolves and goes on to the second device, but the first
  keeps its session and its connected flag.
\<close>

theorem cleanup_leaves_session:
  "fst (cleanup radio_flaky both_linked) = Inr ()
   \<and> has_session (snd (cleanup radio_flaky both_linked)) ''AA:BB:CC:DD:EE:FF''
   \<and> map_option connected
        (map_of (devices (snd (cleanup radio_flaky both_linked))) ''AA:BB:CC:DD:EE:FF'') = Some True
   \<and> \<not> has_session (snd (cleanup radio_flaky both_linked)) ''11:22:33:44:55:66''"
  by code_simp


section \<open>Moderation on the send path\<close>

lemma flagged_reason:
  "flagged (check_patterns ps text) \<Longrightarrow>
     reason (check_patterns ps text) = Some ''Message contains potentially sensitive information''"
  by (induction ps) (simp_all split: if_splits)

text \<open>
  C3, as the code has it. The gate is consulted by the chat screen's
  \<^verbatim>\<open>handleSendMessage\<close>, before it calls \<^verbatim>\<open>sendMessage\<close>. For a text the gate flags, the
  handler leaves the service as it was: \<^verbatim>\<open>sendMessage\<close> is not called, so nothing is
  encrypted and nothing is written to the radio; and (the text not being blank) the
  screen's warning is set to the reason.
\<close>

theorem handleSendMessage_flagged:
  assumes "flagged (checkContentModeration (newMessage ui))"
  shows "snd (handleSendMessage P ble now date device ui s) = s
    \<and> (trim (newMessage ui) \<noteq> [] \<longrightarrow>
         fst (handleSendMessage P ble now date device ui s) =
           ui\<lparr>sending := False,
              moderationWarning := Some ''Message contains potentially sensitive information''\<rparr>)"
proof -
  from assms have "reason (checkContentModeration (newMessage ui)) =
      Some ''Message contains potentially sensitive information''"
    unfolding checkContentModeration_def by (rule flagged_reason)
  with assms show ?thesis
    by (simp add: handleSendMessage_def Let_def)
qed

theorem handleSendMessage_flagged_witness:
  "flagged (checkContentModeration (newMessage draft))
   \<and> trim (newMessage draft) \<noteq> []
   \<and> handleSendMessage mirror radio_ok 1000 1000 peer_device draft linked =
      (draft\<lparr>moderationWarning := Some ''Message contains potentially sensitive information''\<rparr>, linked)"
proof -
  have f: "flagged (checkContentModeration (newMessage draft))" by code_simp
  have t: "trim (newMessage draft) \<noteq> []" by code_simp
  have d: "draft\<lparr>sending := False, moderationWarning := Some ''Message contains potentially sensitive information''\<rparr>
      = draft\<lparr>moderationWarning := Some ''Message contains potentially sensitive information''\<rparr>"
    by (simp add: draft_def)
  from handleSendMessage_flagged [OF f, of mirror radio_ok 1000 1000 peer_device linked] f t d
  show ?thesis by (simp add: prod_eq_iff)
qed

text \<open>
  C3 as stated fails: \<^verbatim>\<open>sendMessage\<close> does not consult the gate. With a live session it
  encrypts a flagged text, writes it to the radio and resolves to true.
\<close>

theorem sendMessage_unmoderated:
  "flagged (checkContentModeration ''my ssn is 123-45-6789'')
   \<and> has_session linked ''AA:BB:CC:DD:EE:FF''
   \<and> fst (sendMessage mirror radio_ok ''AA:BB:CC:DD:EE:FF'' ''my ssn is 123-45-6789'' linked) = Inr True
   \<and> calls (snd (sendMessage mirror radio_ok ''AA:BB:CC:DD:EE:FF'' ''my ssn is 123-45-6789'' linked))
      = calls linked @ [Write ''AA:BB:CC:DD:EE:FF'' SERVICE_UUID MESSAGE_CHARACTERISTIC_UUID
          (map (\<lambda>c. of_nat (code_unit c)) (rev ''my ssn is 123-45-6789''))]"
  by code_simp

section \<open>The round trip of a message\<close>

lemma bytes_round_trip:
  "Uint8Array (dataViewToNumbers (numbersToDataView (Array_from messageData))) = messageData"
  by (simp add: Uint8Array_def dataViewToNumbers_def numbersToDataView_def Array_from_def comp_def)

text \<open>
  C6. Let the cipher decrypt what it encrypted: \<^verbatim>\<open>encrypt\<close> gives \<open>c\<close> for \<open>m\<close> under the
  shared key and \<^verbatim>\<open>decrypt\<close> gives \<open>m\<close> for \<open>c\<close>; and let the text codec give back the
  ciphertext it encoded (CryptoJS prints a ciphertext in Base64). Then the payload that
  \<^verbatim>\<open>sendMessage\<close> writes for \<open>m\<close>, given to the notification handler, yields a message
  with the text \<open>m\<close>, \<open>sent = False\<close> and \<open>encrypted = True\<close>.
\<close>

theorem round_trip:
  assumes enc: "AES_encrypt P m encryptionKey = Inr c"
    and dec: "AES_decrypt P c encryptionKey = Inr m"
    and codec: "TextDecoder_decode P (TextEncoder_encode P c) = c"
    and live: "has_session s deviceId"
  shows "\<exists>payload.
      calls (snd (sendMessage P ble deviceId m s))
        = calls s @ [Write deviceId SERVICE_UUID MESSAGE_CHARACTERISTIC_UUID payload]
    \<and> fst (notification_callback P now date sender payload s') =
        Some \<lparr>message_id = toString now, message_deviceId = sender, message_text = m,
              timestamp = date, sent = False, encrypted = True\<rparr>"
proof -
  let ?payload = "numbersToDataView (Array_from (TextEncoder_encode P c))"
  from live enc have "calls (snd (sendMessage P ble deviceId m s))
        = calls s @ [Write deviceId SERVICE_UUID MESSAGE_CHARACTERISTIC_UUID ?payload]"
    by (simp add: sendMessage_def try_sendMessage_def has_session_def Let_def)
  moreover from dec codec
  have "fst (notification_callback P now date sender ?payload s') =
        Some \<lparr>message_id = toString now, message_deviceId = sender, message_text = m,
              timestamp = date, sent = False, encrypted = True\<rparr>"
    by (simp add: notification_callback_def bytes_round_trip Let_def)
  ultimately show ?thesis by blast
qed

theorem round_trip_witness:
  "AES_encrypt mirror ''hi'' encryptionKey = Inr ''ih''
   \<and> AES_decrypt mirror ''ih'' encryptionKey = Inr ''hi''
   \<and> TextDecoder_decode mirror (TextEncoder_encode mirror ''ih'') = ''ih''
   \<and> has_session linked ''AA:BB:CC:DD:EE:FF''
   \<and> (\<exists>payload.
        calls (snd (sendMessage mirror radio_ok ''AA:BB:CC:DD:EE:FF'' ''hi'' linked))
          = calls linked @ [Write ''AA:BB:CC:DD:EE:FF'' SERVICE_UUID MESSAGE_CHARACTERISTIC_UUID payload]
      \<and> fst (notification_callback mirror 2000 2001 ''77:88:99:AA:BB:CC'' payload initial) =
          Some \<lparr>message_id = toString 2000, message_deviceId = ''77:88:99:AA:BB:CC'',
                message_text = ''hi'', timestamp = 2001, sent = False, encrypted = True\<rparr>)"
proof -
  have enc: "AES_encrypt mirror ''hi'' encryptionKey = Inr ''ih''" by (simp add: mirror_def)
  have dec: "AES_decrypt mirror ''ih'' encryptionKey = Inr ''hi''" by (simp add: mirror_def)
  have codec: "TextDecoder_decode mirror (TextEncoder_encode mirror ''ih'') = ''ih''" by code_simp
  have live: "has_session linked ''AA:BB:CC:DD:EE:FF''" by code_simp
  from round_trip [OF enc dec codec live, of radio_ok 2000 2001 "''77:88:99:AA:BB:CC''" initial]
    enc dec codec live
  show ?thesis by blast
qed


section \<open>Message ids\<close>

text \<open>
  C9 fails on the code: the id of a message is the clock reading in milliseconds and
  nothing else. Two notifications handled in the same millisecond give two different
  messages with one id, and a message sent in that millisecond gets the same id again.
\<close>

theorem message_id_collision:
  "fst (notification_callback mirror 1700000000000 1700000000000 ''AA:BB:CC:DD:EE:FF'' [105, 104] linked)
     = Some \<lparr>message_id = toString 1700000000000, message_deviceId = ''AA:BB:CC:DD:EE:FF'',
             message_text = ''hi'', timestamp = 1700000000000, sent = False, encrypted = True\<rparr>
   \<and> fst (notification_callback mirror 1700000000000 1700000000000 ''AA:BB:CC:DD:EE:FF'' [111, 104] linked)
     = Some \<lparr>message_id = toString 1700000000000, message_deviceId = ''AA:BB:CC:DD:EE:FF'',
             message_text = ''ho'', timestamp = 1700000000000, sent = False, encrypted = True\<rparr>
   \<and> messages (fst (handleSendMessage mirror radio_ok 1700000000000 1700000000000 peer_device
                      composing linked))
     = [\<lparr>message_id = toString 1700000000000, message_deviceId = ''AA:BB:CC:DD:EE:FF'',
         message_text = ''hi'', timestamp = 1700000000000, sent = True, encrypted = True\<rparr>]"
proof -
  have hi: "TextDecoder_decode mirror (Uint8Array (dataViewToNumbers [105, 104])) = ''ih''"
    by code_simp
  have ho: "TextDecoder_decode mirror (Uint8Array (dataViewToNumbers [111, 104])) = ''oh''"
    by code_simp
  have dec: "AES_decrypt mirror t encryptionKey = Inr (rev t)" for t
    by (simp add: mirror_def)
  have received: "fst (notification_callback mirror 1700000000000 1700000000000 ''AA:BB:CC:DD:EE:FF'' [105, 104] linked)
     = Some \<lparr>message_id = toString 1700000000000, message_deviceId = ''AA:BB:CC:DD:EE:FF'',
             message_text = ''hi'', timestamp = 1700000000000, sent = False, encrypted = True\<rparr>
   \<and> fst (notification_callback mirror 1700000000000 1700000000000 ''AA:BB:CC:DD:EE:FF'' [111, 104] linked)
     = Some \<lparr>message_id = toString 1700000000000, message_deviceId = ''AA:BB:CC:DD:EE:FF'',
             message_text = ''ho'', timestamp = 1700000000000, sent = False, encrypted = True\<rparr>"
    by (simp add: notification_callback_def Let_def hi ho dec)
  have clear: "\<not> flagged (checkContentModeration ''hi'')" by code_simp
  have typed: "trim ''hi'' \<noteq> []" by code_simp
  have "fst (sendMessage mirror radio_ok ''AA:BB:CC:DD:EE:FF'' ''hi'' linked) = Inr True"
    by code_simp
  then obtain s' where "sendMessage mirror radio_ok ''AA:BB:CC:DD:EE:FF'' ''hi'' linked = (Inr True, s')"
    by (cases "sendMessage mirror radio_ok ''AA:BB:CC:DD:EE:FF'' ''hi'' linked") simp
  with clear typed have "messages (fst (handleSendMessage mirror radio_ok 1700000000000 1700000000000 peer_device
                      composing linked))
     = [\<lparr>message_id = toString 1700000000000, message_deviceId = ''AA:BB:CC:DD:EE:FF'',
         message_text = ''hi'', timestamp = 1700000000000, sent = True, encrypted = True\<rparr>]"
    by (simp add: handleSendMessage_def Let_def composing_def peer_device_def)
  with received show ?thesis by blast
qed

section \<open>Discovery of a connected device\<close>

text \<open>
  The registry has one record per id in every reachable state, and every method but the
  callback of the scan keeps records and sessions paired.
\<close>

lemma paired_iff:
  assumes "one_record_per_id s"
  shows "paired s = (\<forall>k d. map_of (devices s) k = Some d \<longrightarrow> connected d = has_session s k)"
  using assms by (auto simp: paired_def one_record_per_id_def list_all_iff)

lemma connect_devices:
  "devices (snd (connectToDevice ble k s)) = devices s
   \<or> (\<exists>d. devices (snd (connectToDevice ble k s)) = AList.update k d (devices s))"
  by (auto simp add: connectToDevice_def try_connectToDevice_def Let_def split: option.splits)

lemma disconnect_devices:
  "devices (snd (disconnectFromDevice ble k s)) = devices s
   \<or> (\<exists>d. devices (snd (disconnectFromDevice ble k s)) = AList.update k d (devices s))"
  by (cases "disconnect_ok ble k")
     (auto simp add: disconnect_ok_state disconnect_fail_state split: option.splits)

lemma one_record_connect:
  "one_record_per_id s \<Longrightarrow> one_record_per_id (snd (connectToDevice ble k s))"
  using connect_devices [of ble k s] by (auto simp: one_record_per_id_def distinct_update)

lemma one_record_disconnect:
  "one_record_per_id s \<Longrightarrow> one_record_per_id (snd (disconnectFromDevice ble k s))"
  using disconnect_devices [of ble k s] by (auto simp: one_record_per_id_def distinct_update)

lemma one_record_disconnect_all:
  "one_record_per_id s \<Longrightarrow> one_record_per_id (snd (disconnect_all ble ks s))"
proof (induction ks arbitrary: s)
  case Nil
  then show ?case by simp
next
  case (Cons k ks)
  then show ?case unfolding disconnect_all_step by (simp add: one_record_disconnect)
qed

lemma one_record_cleanup:
  "one_record_per_id s \<Longrightarrow> one_record_per_id (snd (cleanup ble s))"
  using one_record_disconnect_all [of s ble "map fst (connections s)"]
  by (simp add: cleanup_state one_record_per_id_def)

lemma reachable_one_record_per_id:
  assumes "reachable s"
  shows "one_record_per_id s"
  using assms
proof (induction rule: reachable.induct)
  case start
  show ?case by (simp add: one_record_per_id_def initial_def)
next
  case (initialized s ble)
  then show ?case by (simp add: one_record_per_id_def initialize_def Let_def)
next
  case (scan_started s ble)
  then show ?case by (simp add: one_record_per_id_def startScanning_def Let_def)
next
  case (discovered s now result)
  then show ?case by (simp add: one_record_per_id_def scan_callback_def Let_def distinct_update)
next
  case (scan_stopped s ble)
  then show ?case by (simp add: one_record_per_id_def)
next
  case (connect s ble deviceId)
  then show ?case by (simp add: one_record_connect)
next
  case (disconnect s ble deviceId)
  then show ?case by (simp add: one_record_disconnect)
next
  case (send s P ble deviceId t)
  then show ?case
    by (simp add: one_record_per_id_def sendMessage_def try_sendMessage_def Let_def split: sum.splits)
next
  case (listen s ble deviceId)
  then show ?case by (simp add: one_record_per_id_def startMessageListener_def Let_def)
next
  case (notified s P now date deviceId v)
  then show ?case
    by (simp add: one_record_per_id_def notification_callback_def Let_def split: sum.splits)
next
  case (cleaned s ble)
  then show ?case by (simp add: one_record_cleanup)
qed

lemma connect_keeps_pairing:
  assumes "one_record_per_id s" and "paired s"
  shows "paired (snd (connectToDevice ble k s))"
proof -
  have one: "one_record_per_id (snd (connectToDevice ble k s))"
    using assms(1) by (rule one_record_connect)
  from assms have p: "\<And>k d. map_of (devices s) k = Some d \<Longrightarrow> connected d = has_session s k"
    by (simp add: paired_iff)
  show ?thesis
    unfolding paired_iff [OF one]
    using p
    by (auto simp: connectToDevice_def try_connectToDevice_def Let_def has_session_def update_conv'
        split: option.splits if_splits)
qed

lemma disconnect_keeps_pairing:
  assumes "one_record_per_id s" and "paired s"
  shows "paired (snd (disconnectFromDevice ble k s))"
proof -
  have one: "one_record_per_id (snd (disconnectFromDevice ble k s))"
    using assms(1) by (rule one_record_disconnect)
  from assms have p: "\<And>k d. map_of (devices s) k = Some d \<Longrightarrow> connected d = has_session s k"
    by (simp add: paired_iff)
  show ?thesis
    unfolding paired_iff [OF one]
    using p
    by (auto simp: disconnect_devices_lookup disconnect_connections has_session_def delete_conv'
        split: if_splits)
qed

lemma disconnect_all_keeps_pairing:
  "one_record_per_id s \<Longrightarrow> paired s \<Longrightarrow> paired (snd (disconnect_all ble ks s))"
proof (induction ks arbitrary: s)
  case Nil
  then show ?case by simp
next
  case (Cons k ks)
  then show ?case
    unfolding disconnect_all_step
    by (simp add: one_record_disconnect disconnect_keeps_pairing)
qed

lemma cleanup_keeps_pairing:
  assumes "one_record_per_id s" and "paired s"
  shows "paired (snd (cleanup ble s))"
  using disconnect_all_keeps_pairing [OF assms, of ble "map fst (connections s)"]
  by (simp add: cleanup_state paired_def has_session_def)

lemma send_keeps_pairing:
  "paired s \<Longrightarrow> paired (snd (sendMessage P ble k t s))"
  by (simp add: paired_def has_session_def sendMessage_def try_sendMessage_def Let_def split: sum.splits)

text \<open>
  C1 fails on the code: after a scan, a successful connect and a second discovery event
  for the same device, the session exists and the record says not connected. The path
  that breaks the pairing is the callback of the scan.
\<close>

theorem rediscovery_breaks_pairing:
  "reachable rediscovered
   \<and> has_session rediscovered ''AA:BB:CC:DD:EE:FF''
   \<and> map_option connected (map_of (devices rediscovered) ''AA:BB:CC:DD:EE:FF'') = Some False
   \<and> \<not> paired rediscovered"
proof -
  have "reachable rediscovered"
    unfolding rediscovered_def by (intro reachable.intros reachable_linked)
  moreover have "has_session rediscovered ''AA:BB:CC:DD:EE:FF''
   \<and> map_option connected (map_of (devices rediscovered) ''AA:BB:CC:DD:EE:FF'') = Some False
   \<and> \<not> paired rediscovered"
    by code_simp
  ultimately show ?thesis by blast
qed

text \<open>
  C2 fails on the code: the callback of the scan stores a fresh record whose flag is
  false, whatever the stored record said; it does not touch the sessions. In the state
  with a session for the first peer, the flag goes from true to false.
\<close>

theorem scan_callback_resets_connected:
  "map_option connected (map_of (devices (scan_callback now result s)) (result_deviceId result))
     = Some False
   \<and> connections (scan_callback now result s) = connections s
   \<and> map_option connected (map_of (devices linked) (result_deviceId peer)) = Some True
   \<and> map_option connected (map_of (devices (scan_callback 2000 peer linked)) (result_deviceId peer))
     = Some False"
proof -
  have "map_option connected (map_of (devices linked) (result_deviceId peer)) = Some True"
    by code_simp
  then show ?thesis
    by (simp add: scan_callback_def Let_def update_conv')
qed

end
